theory Spec2Isabelle
  imports Main "HOL-Library.AList"
begin

section \<open>Strings\<close>

text \<open>
  A Python \<open>str\<close> is a sequence of code points. The model uses \<open>string\<close>, whose
  characters are the code points U+0000 to U+00FF; on that range \<open>str.lower\<close>,
  \<open>str.isspace\<close> and the UTF-8 length are the functions below. Every such string can be
  encoded as UTF-8, so writing text never fails on the encoding.
\<close>

abbreviation LF :: char where "LF \<equiv> CHR 0x0A"
abbreviation CR :: char where "CR \<equiv> CHR 0x0D"
abbreviation NUL :: char where "NUL \<equiv> CHR 0x00"
abbreviation QUOTE :: char where "QUOTE \<equiv> CHR 0x27"

definition lower_char :: "char \<Rightarrow> char" where
  "lower_char c =
     (let n = (of_char c :: nat) in
      if 65 \<le> n \<and> n \<le> 90 then char_of (n + 32)
      else if n = 215 then c
      else if 192 \<le> n \<and> n \<le> 222 then char_of (n + 32)
      else c)"

definition str_lower :: "string \<Rightarrow> string" where
  "str_lower s = map lower_char s"

text \<open>\<open>s.replace(old, new)\<close>: every non-overlapping occurrence, from the left.\<close>

function str_replace :: "string \<Rightarrow> string \<Rightarrow> string \<Rightarrow> string" where
  "str_replace old new s =
     (if old = [] then new @ concat (map (\<lambda>c. c # new) s)
      else if s = [] then []
      else if take (length old) s = old
        then new @ str_replace old new (drop (length old) s)
      else hd s # str_replace old new (tl s))"
  by pat_completeness auto
termination
  by (relation "measure (\<lambda>(old, new, s). length s)") auto

declare str_replace.simps [simp del]

definition endswith :: "string \<Rightarrow> string \<Rightarrow> bool" where
  "endswith s suf = (length suf \<le> length s \<and> drop (length s - length suf) s = suf)"

definition isspace :: "char \<Rightarrow> bool" where
  "isspace c =
     (let n = (of_char c :: nat) in
      if 9 \<le> n \<and> n \<le> 13 then True
      else if 28 \<le> n \<and> n \<le> 32 then True
      else if n = 133 then True
      else n = 160)"

definition strip :: "string \<Rightarrow> string" where
  "strip s = rev (dropWhile isspace (rev (dropWhile isspace s)))"

text \<open>The source's \<open>kebab_case\<close>.\<close>

definition kebab_case :: "string \<Rightarrow> string" where
  "kebab_case text = str_replace '' '' ''-'' (str_lower text)"

section \<open>Paths\<close>

text \<open>
  An absolute path is the list of its components below the root. \<open>DOCS_DIR\<close> is such a
  path, fixed at start-up; it is the parameter \<open>DOCS_DIR\<close> of every tool.
  \<open>joinpath D name\<close> is pathlib's \<open>D / name\<close>: an absolute \<open>name\<close> replaces \<open>D\<close>,
  empty and \<open>.\<close> components are dropped, \<open>..\<close> is kept for the operating system.
\<close>

type_synonym path = "string list"

fun split_on :: "char \<Rightarrow> string \<Rightarrow> string list" where
  "split_on sep [] = [[]]"
| "split_on sep (c # cs) =
     (if c = sep then [] # split_on sep cs
      else (case split_on sep cs of [] \<Rightarrow> [[c]] | w # ws \<Rightarrow> (c # w) # ws))"

definition parse_parts :: "string \<Rightarrow> path" where
  "parse_parts name = filter (\<lambda>p. p \<noteq> [] \<and> p \<noteq> ''.'') (split_on CHR ''/'' name)"

definition joinpath :: "path \<Rightarrow> string \<Rightarrow> path" where
  "joinpath D name =
     (if take 1 name = ''/'' then parse_parts name else D @ parse_parts name)"

text \<open>\<open>str(path)\<close> and \<open>path.name\<close>.\<close>

definition path_str :: "path \<Rightarrow> string" where
  "path_str p = (if p = [] then ''/'' else concat (map (\<lambda>c. CHR ''/'' # c) p))"

definition path_name :: "path \<Rightarrow> string" where
  "path_name p = (if p = [] then [] else last p)"

section \<open>The file system\<close>

text \<open>
  A node is a directory or a regular file, with the access the server process has to it.
  A file holds UTF-8 text or bytes that are not valid UTF-8. The file system is an
  association list from resolved absolute paths to nodes; its order is the order a
  directory scan yields.

  The library calls of the source are those of CPython 3.11 on a POSIX system: names
  are case sensitive, the line separator is \<open>\n\<close>, there are no symbolic links, and a
  path component is at most 255 bytes long. A limit on the length of a whole path is
  not part of the model.
\<close>

datatype perm = Perm (readable: bool) (writable: bool) (searchable: bool)

datatype data = Text string | Undecodable

datatype node = Dir perm | File perm data

type_synonym fs = "(path \<times> node) list"

datatype exn =
    FileNotFoundError
  | NotADirectoryError
  | IsADirectoryError
  | PermissionError
  | FileNameTooLong
  | ValueError
  | UnicodeDecodeError

text \<open>
  \<open>str(e)\<close>, shortened: the interpreter's text also quotes the path (or names the
  offending byte), which is left out here. Where a statement below shows an error
  string, only its fixed beginning is the tool's own text.
\<close>

fun str_exn :: "exn \<Rightarrow> string" where
  "str_exn FileNotFoundError = ''[Errno 2] No such file or directory''"
| "str_exn NotADirectoryError = ''[Errno 20] Not a directory''"
| "str_exn IsADirectoryError = ''[Errno 21] Is a directory''"
| "str_exn PermissionError = ''[Errno 13] Permission denied''"
| "str_exn FileNameTooLong = ''[Errno 36] File name too long''"
| "str_exn ValueError = ''embedded null byte''"
| "str_exn UnicodeDecodeError = ''invalid utf-8''"

definition utf8_len :: "string \<Rightarrow> nat" where
  "utf8_len s = sum_list (map (\<lambda>c. if (of_char c :: nat) < 128 then 1 else 2) s)"

text \<open>A component longer than 255 bytes is refused (\<open>NAME_MAX\<close>).\<close>

definition name_too_long :: "string \<Rightarrow> bool" where
  "name_too_long c = (255 < utf8_len c)"

definition step :: "path \<Rightarrow> string \<Rightarrow> path" where
  "step cur c = (if c = ''..'' then butlast cur else cur @ [c])"

text \<open>
  Path resolution by the operating system: to look a component up, the current node
  must be a directory the process may search.
\<close>

fun walk :: "fs \<Rightarrow> path \<Rightarrow> string list \<Rightarrow> exn + path" where
  "walk fs cur [] = Inr cur"
| "walk fs cur (c # cs) =
     (case map_of fs cur of
        None \<Rightarrow> Inl FileNotFoundError
      | Some (File pm d) \<Rightarrow> Inl NotADirectoryError
      | Some (Dir pm) \<Rightarrow>
          if \<not> searchable pm then Inl PermissionError
          else if name_too_long c then Inl FileNameTooLong
          else walk fs (step cur c) cs)"

definition has_nul :: "path \<Rightarrow> bool" where
  "has_nul p = (NUL \<in> set (concat p))"

definition os_stat :: "fs \<Rightarrow> path \<Rightarrow> exn + node" where
  "os_stat fs p =
     (if has_nul p then Inl ValueError
      else case walk fs [] p of
        Inl e \<Rightarrow> Inl e
      | Inr q \<Rightarrow> (case map_of fs q of None \<Rightarrow> Inl FileNotFoundError | Some n \<Rightarrow> Inr n))"

text \<open>
  pathlib's \<open>_ignore_error\<close>: \<open>ENOENT\<close> and \<open>ENOTDIR\<close> (and \<open>EBADF\<close>, \<open>ELOOP\<close>, which do
  not arise here) are ignored; \<open>exists\<close> and \<open>is_dir\<close> also turn \<open>ValueError\<close> into
  \<open>False\<close>. Any other error of \<open>stat\<close> is raised again.
\<close>

fun ignore_error :: "exn \<Rightarrow> bool" where
  "ignore_error FileNotFoundError = True"
| "ignore_error NotADirectoryError = True"
| "ignore_error ValueError = True"
| "ignore_error e = False"

definition Path_exists :: "fs \<Rightarrow> path \<Rightarrow> exn + bool" where
  "Path_exists fs p =
     (case os_stat fs p of
        Inr n \<Rightarrow> Inr True
      | Inl e \<Rightarrow> if ignore_error e then Inr False else Inl e)"

definition Path_is_dir :: "fs \<Rightarrow> path \<Rightarrow> exn + bool" where
  "Path_is_dir fs p =
     (case os_stat fs p of
        Inr (Dir pm) \<Rightarrow> Inr True
      | Inr (File pm d) \<Rightarrow> Inr False
      | Inl e \<Rightarrow> if ignore_error e then Inr False else Inl e)"

text \<open>
  Reading text with the default \<open>newline=None\<close>: \<open>\r\n\<close> and a lone \<open>\r\<close> both arrive
  as \<open>\n\<close>.
\<close>

fun universal_newlines :: "string \<Rightarrow> string" where
  "universal_newlines [] = []"
| "universal_newlines [c] = (if c = CR then [LF] else [c])"
| "universal_newlines (c # d # cs) =
     (if c = CR then (if d = LF then LF # universal_newlines cs
                      else LF # universal_newlines (d # cs))
      else c # universal_newlines (d # cs))"

text \<open>\<open>open(p, "r", encoding="utf-8")\<close> followed by \<open>f.read()\<close>.\<close>

definition read_text :: "fs \<Rightarrow> path \<Rightarrow> exn + string" where
  "read_text fs p =
     (case os_stat fs p of
        Inl e \<Rightarrow> Inl e
      | Inr (Dir pm) \<Rightarrow> Inl IsADirectoryError
      | Inr (File pm d) \<Rightarrow>
          if \<not> readable pm then Inl PermissionError
          else (case d of Undecodable \<Rightarrow> Inl UnicodeDecodeError
                | Text s \<Rightarrow> Inr (universal_newlines s)))"

text \<open>
  \<open>open(p, "w", encoding="utf-8")\<close> followed by \<open>f.write(content)\<close>, on a system whose
  line separator is \<open>\n\<close>. An existing file is truncated and keeps its permissions; a
  new file is created in its parent directory, readable and writable.
\<close>

definition write_text :: "fs \<Rightarrow> path \<Rightarrow> string \<Rightarrow> fs \<times> (exn + unit)" where
  "write_text fs p content =
     (if has_nul p then (fs, Inl ValueError)
      else case walk fs [] p of
        Inl e \<Rightarrow> (fs, Inl e)
      | Inr q \<Rightarrow>
         (case map_of fs q of
            Some (Dir pm) \<Rightarrow> (fs, Inl IsADirectoryError)
          | Some (File pm d) \<Rightarrow>
              if writable pm then (AList.update q (File pm (Text content)) fs, Inr ())
              else (fs, Inl PermissionError)
          | None \<Rightarrow>
             (case map_of fs (butlast q) of
                Some (Dir pm) \<Rightarrow>
                  if writable pm
                  then (AList.update q (File (Perm True True False) (Text content)) fs, Inr ())
                  else (fs, Inl PermissionError)
              | Some (File pm d) \<Rightarrow> (fs, Inl NotADirectoryError)
              | None \<Rightarrow> (fs, Inl FileNotFoundError))))"

text \<open>\<open>os.remove(p)\<close>.\<close>

definition os_remove :: "fs \<Rightarrow> path \<Rightarrow> fs \<times> (exn + unit)" where
  "os_remove fs p =
     (if has_nul p then (fs, Inl ValueError)
      else case walk fs [] p of
        Inl e \<Rightarrow> (fs, Inl e)
      | Inr q \<Rightarrow>
         (case map_of fs q of
            None \<Rightarrow> (fs, Inl FileNotFoundError)
          | Some (Dir pm) \<Rightarrow> (fs, Inl IsADirectoryError)
          | Some (File pm d) \<Rightarrow>
             (case map_of fs (butlast q) of
                Some (Dir dpm) \<Rightarrow>
                  if writable dpm then (AList.delete q fs, Inr ())
                  else (fs, Inl PermissionError)
              | Some (File dpm dd) \<Rightarrow> (fs, Inl NotADirectoryError)
              | None \<Rightarrow> (fs, Inl FileNotFoundError))))"

text \<open>
  \<open>os.scandir\<close> of a directory: the names of its entries, in the order of the file
  system.
\<close>

definition scandir :: "fs \<Rightarrow> path \<Rightarrow> exn + string list" where
  "scandir fs p =
     (if has_nul p then Inl ValueError
      else case walk fs [] p of
        Inl e \<Rightarrow> Inl e
      | Inr q \<Rightarrow>
         (case map_of fs q of
            None \<Rightarrow> Inl FileNotFoundError
          | Some (File pm d) \<Rightarrow> Inl NotADirectoryError
          | Some (Dir pm) \<Rightarrow>
              if \<not> readable pm then Inl PermissionError
              else Inr (map last
                     (filter (\<lambda>k. k \<noteq> [] \<and> butlast k = q) (remdups (map fst fs))))))"

text \<open>
  \<open>D.glob("*.md")\<close>: nothing unless \<open>D\<close> is a directory; a \<open>PermissionError\<close> of the scan
  ends it without a result; the pattern keeps the names that end in \<open>.md\<close>, files and
  directories alike.
\<close>

definition glob_md :: "fs \<Rightarrow> path \<Rightarrow> exn + path list" where
  "glob_md fs D =
     (case Path_is_dir fs D of
        Inl e \<Rightarrow> Inl e
      | Inr False \<Rightarrow> Inr []
      | Inr True \<Rightarrow>
         (case scandir fs D of
            Inl e \<Rightarrow> if e = PermissionError then Inr [] else Inl e
          | Inr names \<Rightarrow> Inr (map (\<lambda>n. D @ [n]) (filter (\<lambda>n. endswith n ''.md'') names))))"

section \<open>The four tools\<close>

text \<open>
  Each tool returns \<open>Inr\<close> of the string it returns, or \<open>Inl\<close> of the exception that
  leaves it. \<open>save_docs\<close> and \<open>remove_docs\<close> also return the file system they leave.
\<close>

definition list_docs :: "fs \<Rightarrow> path \<Rightarrow> exn + string" where
  "list_docs fs DOCS_DIR =
     (case glob_md fs DOCS_DIR of
        Inl e \<Rightarrow> Inl e
      | Inr doc_files \<Rightarrow>
          if doc_files = [] then Inr ''No documentation files found.''
          else Inr (foldl (\<lambda>result doc_file. result @ ''- '' @ path_name doc_file @ [LF])
                      (''Available documentation files:'' @ [LF, LF]) doc_files))"

text \<open>
  The two lines that \<open>read_docs\<close>, \<open>save_docs\<close> and \<open>remove_docs\<close> share:
  \<open>if not filename.endswith(".md"): filename += ".md"\<close>.
\<close>

definition ensure_md :: "string \<Rightarrow> string" where
  "ensure_md filename = (if \<not> endswith filename ''.md'' then filename @ ''.md'' else filename)"

fun read_loop :: "fs \<Rightarrow> path \<Rightarrow> string list \<Rightarrow> string \<Rightarrow> exn + string" where
  "read_loop fs DOCS_DIR [] result = Inr result"
| "read_loop fs DOCS_DIR (filename0 # rest) result =
     (let filename = ensure_md filename0;
          file_path = joinpath DOCS_DIR filename
      in case Path_exists fs file_path of
           Inl e \<Rightarrow> Inl e
         | Inr False \<Rightarrow>
             read_loop fs DOCS_DIR rest
               (result @ ''Error: File '' @ [QUOTE] @ filename @ [QUOTE] @ '' not found.''
                  @ [LF, LF])
         | Inr True \<Rightarrow>
            (case read_text fs file_path of
               Inr content \<Rightarrow>
                 read_loop fs DOCS_DIR rest
                   (result @ ''## '' @ filename @ [LF, LF] @ content @ [LF, LF]
                      @ replicate 50 CHR ''='' @ [LF, LF])
             | Inl e \<Rightarrow>
                 read_loop fs DOCS_DIR rest
                   (result @ ''Error reading '' @ [QUOTE] @ filename @ [QUOTE] @ '': ''
                      @ str_exn e @ [LF, LF])))"

definition read_docs :: "fs \<Rightarrow> path \<Rightarrow> string list \<Rightarrow> exn + string" where
  "read_docs fs DOCS_DIR filenames =
     (if filenames = [] then Inr ''Error: No filenames provided.''
      else case read_loop fs DOCS_DIR filenames [] of
             Inl e \<Rightarrow> Inl e
           | Inr result \<Rightarrow> Inr (strip result))"

definition save_docs :: "fs \<Rightarrow> path \<Rightarrow> string \<Rightarrow> string \<Rightarrow> fs \<times> (exn + string)" where
  "save_docs fs DOCS_DIR filename content =
     (let kebab_filename = ensure_md (kebab_case filename);
          file_path = joinpath DOCS_DIR kebab_filename
      in case write_text fs file_path content of
           (fs', Inr u) \<Rightarrow>
             (fs', Inr (''Successfully saved documentation to '' @ kebab_filename
                          @ '' in '' @ path_str DOCS_DIR))
         | (fs', Inl e) \<Rightarrow> (fs', Inr (''Error saving documentation: '' @ str_exn e)))"

definition remove_docs :: "fs \<Rightarrow> path \<Rightarrow> string \<Rightarrow> fs \<times> (exn + string)" where
  "remove_docs fs DOCS_DIR filename0 =
     (let filename = ensure_md filename0;
          file_path = joinpath DOCS_DIR filename
      in case Path_exists fs file_path of
           Inl e \<Rightarrow> (fs, Inl e)
         | Inr False \<Rightarrow>
             (fs, Inr (''Error: File '' @ [QUOTE] @ filename @ [QUOTE] @ '' not found.''))
         | Inr True \<Rightarrow>
            (case os_remove fs file_path of
               (fs', Inr u) \<Rightarrow>
                 (fs', Inr (''Successfully removed '' @ filename @ '' from '' @ path_str DOCS_DIR))
             | (fs', Inl e) \<Rightarrow> (fs', Inr (''Error removing documentation: '' @ str_exn e))))"

section \<open>Descriptions used in the statements\<close>

text \<open>
  Kebab form as the description gives it: lowercase, then each space replaced by a
  hyphen; and the name a document is stored under.
\<close>

definition kebab_form :: "string \<Rightarrow> string" where
  "kebab_form name = map (\<lambda>c. if c = CHR '' '' then CHR ''-'' else c) (map lower_char name)"

definition stored_name :: "string \<Rightarrow> string" where
  "stored_name name =
     (let k = kebab_form name in if endswith k ''.md'' then k else k @ ''.md'')"

text \<open>The listing: a header and one bullet per file name, or the empty-store message.\<close>

definition listing :: "path list \<Rightarrow> string" where
  "listing doc_files =
     (if doc_files = [] then ''No documentation files found.''
      else ''Available documentation files:'' @ [LF, LF]
             @ concat (map (\<lambda>f. ''- '' @ path_name f @ [LF]) doc_files))"

text \<open>
  The section one requested name contributes to the aggregate, and the names for which
  the existence check gives an answer.
\<close>

definition section_of :: "fs \<Rightarrow> path \<Rightarrow> string \<Rightarrow> string" where
  "section_of fs D name =
     (if Path_exists fs (joinpath D (ensure_md name)) = Inr True
      then (case read_text fs (joinpath D (ensure_md name)) of
              Inr content \<Rightarrow>
                ''## '' @ ensure_md name @ [LF, LF] @ content @ [LF, LF]
                  @ replicate 50 CHR ''='' @ [LF, LF]
            | Inl e \<Rightarrow>
                ''Error reading '' @ [QUOTE] @ ensure_md name @ [QUOTE] @ '': '' @ str_exn e
                  @ [LF, LF])
      else ''Error: File '' @ [QUOTE] @ ensure_md name @ [QUOTE] @ '' not found.'' @ [LF, LF])"

definition answers :: "fs \<Rightarrow> path \<Rightarrow> string \<Rightarrow> bool" where
  "answers fs D name =
     (case Path_exists fs (joinpath D (ensure_md name)) of Inl e \<Rightarrow> False | Inr b \<Rightarrow> True)"

text \<open>A resolved path lies inside the store root when the root is a prefix of it.\<close>

definition inside :: "path \<Rightarrow> path \<Rightarrow> bool" where
  "inside D p = (take (length D) p = D)"

section \<open>Example stores\<close>

text \<open>
  The store root \<open>/srv/docs\<close> in an otherwise empty file system; the same with a
  subdirectory the server may not search; the same with one document \<open>a.md\<close>; and a
  name of 256 letters.
\<close>

definition rwx :: perm where "rwx = Perm True True True"

definition rw :: perm where "rw = Perm True True False"

definition D0 :: path where "D0 = [''srv'', ''docs'']"

definition fs0 :: fs where
  "fs0 = [([], Dir rwx), ([''srv''], Dir rwx), ([''srv'', ''docs''], Dir rwx)]"

definition fs_private :: fs where
  "fs_private = fs0 @ [([''srv'', ''docs'', ''private''], Dir (Perm True True False))]"

definition fs_a :: fs where
  "fs_a = fs0 @ [([''srv'', ''docs'', ''a.md''], File rw (Text ''A''))]"

definition long_name :: string where "long_name = replicate 256 CHR ''a''"

section \<open>Strings: replacing, suffixes, stripping\<close>

lemma str_replace_char:
  "str_replace [a] [b] s = map (\<lambda>c. if c = a then b else c) s"
proof (induction s)
  case Nil
  show ?case by (subst str_replace.simps) simp
next
  case (Cons x xs)
  show ?case
    by (subst str_replace.simps) (simp add: Cons.IH)
qed

lemma kebab_case_form: "kebab_case name = kebab_form name"
  by (simp add: kebab_case_def kebab_form_def str_lower_def str_replace_char)

lemma ensure_md_stored: "ensure_md (kebab_case name) = stored_name name"
  by (simp add: ensure_md_def stored_name_def kebab_case_form Let_def)

lemma endswith_append: "endswith (s @ suf) suf"
  by (simp add: endswith_def)

lemma ensure_md_idem: "ensure_md (ensure_md s) = ensure_md s"
  by (simp add: ensure_md_def endswith_append)

lemma endswith_md_not_dotdot: "endswith n ''.md'' \<Longrightarrow> n \<noteq> ''..''"
  by (auto simp: endswith_def)

lemma kebab_case_empty: "kebab_case '''' = ''''"
  by (simp add: kebab_case_form kebab_form_def)

lemma ensure_md_empty: "ensure_md '''' = ''.md''"
  by (simp add: ensure_md_def endswith_def)

lemma strip_trailing:
  assumes "xs \<noteq> []" "\<not> isspace (hd xs)" "\<not> isspace (last xs)" "\<forall>c\<in>set ws. isspace c"
  shows "strip (xs @ ws) = xs"
proof -
  have a: "dropWhile isspace (xs @ ws) = xs @ ws"
    using assms(1,2) by (cases xs) auto
  have "\<And>c. c \<in> set (rev ws) \<Longrightarrow> isspace c"
    using assms(4) by simp
  then have b: "dropWhile isspace (rev ws @ rev xs) = dropWhile isspace (rev xs)"
    by (rule dropWhile_append2)
  have c: "dropWhile isspace (rev xs) = rev xs"
    using assms(1,3) by (cases xs rule: rev_cases) auto
  show ?thesis by (simp add: strip_def a b c)
qed

lemma isspace_LF: "isspace LF"
  by (simp add: isspace_def)

lemma not_isspace_marks:
  "\<not> isspace CHR ''#''" "\<not> isspace CHR ''=''" "\<not> isspace CHR ''E''" "\<not> isspace CHR ''.''"
  by (simp_all add: isspace_def)

lemma strip_section:
  "strip (''## '' @ f @ [LF, LF] @ body @ [LF, LF] @ replicate 50 CHR ''='' @ [LF, LF])
     = ''## '' @ f @ [LF, LF] @ body @ [LF, LF] @ replicate 50 CHR ''=''"
proof -
  let ?xs = "''## '' @ f @ [LF, LF] @ body @ [LF, LF] @ replicate 50 CHR ''=''"
  have "strip (?xs @ [LF, LF]) = ?xs"
    by (rule strip_trailing) (simp_all add: isspace_LF not_isspace_marks)
  then show ?thesis by simp
qed

lemma strip_not_found:
  "strip (''Error: File '' @ [QUOTE] @ f @ [QUOTE] @ '' not found.'' @ [LF, LF])
     = ''Error: File '' @ [QUOTE] @ f @ [QUOTE] @ '' not found.''"
proof -
  let ?xs = "''Error: File '' @ [QUOTE] @ f @ [QUOTE] @ '' not found.''"
  have "strip (?xs @ [LF, LF]) = ?xs"
    by (rule strip_trailing) (simp_all add: isspace_LF not_isspace_marks)
  then show ?thesis by simp
qed

lemma universal_newlines_id: "CR \<notin> set s \<Longrightarrow> universal_newlines s = s"
  by (induction s rule: universal_newlines.induct) auto

section \<open>Path resolution\<close>

lemma joinpath_dot_md: "joinpath D ''.md'' = D @ [''.md'']"
  by (simp add: joinpath_def parse_parts_def)

lemma not_too_long_dot_md: "\<not> name_too_long ''.md''"
  by (simp add: name_too_long_def utf8_len_def)

lemma walk_append:
  "walk fs cur (xs @ ys) = (case walk fs cur xs of Inl e \<Rightarrow> Inl e | Inr q \<Rightarrow> walk fs q ys)"
  by (induction xs arbitrary: cur) (auto split: option.splits node.splits)

text \<open>A walk that succeeds only passes directories, so it survives any change that keeps them.\<close>

lemma walk_dirs_preserved:
  assumes "\<And>q pm. map_of fs q = Some (Dir pm) \<Longrightarrow> map_of fs' q = Some (Dir pm)"
  shows "walk fs cur cs = Inr p \<Longrightarrow> walk fs' cur cs = Inr p"
proof (induction cs arbitrary: cur)
  case Nil
  then show ?case by simp
next
  case (Cons c cs)
  then show ?case
    by (auto split: option.splits node.splits if_splits dest: assms)
qed

lemma walk_after_update:
  assumes "walk fs cur cs = Inr p"
    and "map_of fs q = None \<or> (\<exists>pm d. map_of fs q = Some (File pm d))"
  shows "walk (AList.update q (File pm' d') fs) cur cs = Inr p"
proof (rule walk_dirs_preserved [OF _ assms(1)])
  fix k pm
  assume "map_of fs k = Some (Dir pm)"
  with assms(2) have "k \<noteq> q" by auto
  with \<open>map_of fs k = Some (Dir pm)\<close>
  show "map_of (AList.update q (File pm' d') fs) k = Some (Dir pm)"
    by (simp add: update_conv')
qed

lemma walk_after_delete:
  assumes "walk fs cur cs = Inr p" and "map_of fs q = Some (File pm d)"
  shows "walk (AList.delete q fs) cur cs = Inr p"
proof (rule walk_dirs_preserved [OF _ assms(1)])
  fix k pm'
  assume d: "map_of fs k = Some (Dir pm')"
  with assms(2) have "k \<noteq> q" by auto
  with d show "map_of (AList.delete q fs) k = Some (Dir pm')"
    by simp
qed

section \<open>Writing and removing files\<close>

lemma write_text_ok:
  assumes "write_text fs p content = (fs', Inr u)"
  shows "\<exists>q pm. \<not> has_nul p \<and> walk fs [] p = Inr q \<and> writable pm
           \<and> fs' = AList.update q (File pm (Text content)) fs
           \<and> (map_of fs q = None \<or> (\<exists>d. map_of fs q = Some (File pm d)))"
  using assms
  apply (auto simp: write_text_def split: if_splits sum.splits option.splits node.splits)
  apply (rule exI [of _ "Perm True True False"])
  apply simp
  done

lemma write_text_fail: "write_text fs p content = (fs', Inl e) \<Longrightarrow> fs' = fs"
  by (auto simp: write_text_def split: if_splits sum.splits option.splits node.splits)

lemma stat_after_write:
  assumes "write_text fs p content = (fs', Inr u)"
  shows "\<exists>pm. os_stat fs' p = Inr (File pm (Text content))"
proof -
  from assms obtain q pm where h: "\<not> has_nul p" "walk fs [] p = Inr q"
      "fs' = AList.update q (File pm (Text content)) fs"
      "map_of fs q = None \<or> (\<exists>d. map_of fs q = Some (File pm d))"
    using write_text_ok by blast
  from h(2,4) have w: "walk fs' [] p = Inr q"
    unfolding h(3) by (intro walk_after_update) auto
  have "map_of fs' q = Some (File pm (Text content))"
    by (simp add: h(3) update_conv')
  with h(1) w show ?thesis by (simp add: os_stat_def)
qed

lemma write_text_idem:
  "fst (write_text (fst (write_text fs p content)) p content) = fst (write_text fs p content)"
proof (cases "write_text fs p content")
  case (Pair fs' r)
  show ?thesis
  proof (cases r)
    case (Inl e)
    with Pair have "fs' = fs" by (simp add: write_text_fail)
    with Pair show ?thesis by simp
  next
    case (Inr u)
    with Pair obtain q pm where h: "\<not> has_nul p" "walk fs [] p = Inr q" "writable pm"
      "fs' = AList.update q (File pm (Text content)) fs"
      "map_of fs q = None \<or> (\<exists>d. map_of fs q = Some (File pm d))"
      using write_text_ok by blast
    from h(2,5) have w: "walk fs' [] p = Inr q"
      unfolding h(4) by (intro walk_after_update) auto
    have l: "map_of fs' q = Some (File pm (Text content))"
      by (simp add: h(4) update_conv')
    have "write_text fs' p content = (fs', Inr ())"
      using h(1,3) w l by (simp add: write_text_def h(4))
    with Pair show ?thesis by simp
  qed
qed

lemma os_remove_ok:
  assumes "os_remove fs p = (fs', Inr u)"
  shows "\<exists>q pm d. \<not> has_nul p \<and> walk fs [] p = Inr q \<and> map_of fs q = Some (File pm d)
           \<and> fs' = AList.delete q fs"
  using assms
  by (auto simp: os_remove_def split: if_splits sum.splits option.splits node.splits)

section \<open>Scanning the store root\<close>

lemma scandir_names:
  assumes "scandir fs D = Inr names" and "n \<in> set names"
  shows "\<exists>q pm. walk fs [] D = Inr q \<and> map_of fs q = Some (Dir pm) \<and> q @ [n] \<in> fst ` set fs"
proof -
  from assms(1) obtain q pm where w: "walk fs [] D = Inr q" "map_of fs q = Some (Dir pm)"
    and nm: "names = map last (filter (\<lambda>k. k \<noteq> [] \<and> butlast k = q) (remdups (map fst fs)))"
    by (auto simp: scandir_def split: if_splits sum.splits option.splits node.splits)
  from assms(2) nm obtain k where k: "k \<in> fst ` set fs" "k \<noteq> []" "butlast k = q" "n = last k"
    by auto
  from k(2-4) have "q @ [n] = k"
    by (metis append_butlast_last_id)
  with k(1) have "q @ [n] \<in> fst ` set fs" by simp
  with w show ?thesis by simp
qed

text \<open>Every path the scan yields resolves to an entry of the file system, if it resolves.\<close>

lemma glob_md_resolves:
  assumes "glob_md fs D = Inr files" and "f \<in> set files"
  shows "(\<exists>k. k \<in> fst ` set fs \<and> walk fs [] f = Inr k) \<or> (\<exists>e. walk fs [] f = Inl e)"
proof -
  from assms obtain names n where sc: "scandir fs D = Inr names" "n \<in> set names"
      "endswith n ''.md''" "f = D @ [n]"
    by (auto simp: glob_md_def split: sum.splits bool.splits if_splits)
  from scandir_names [OF sc(1,2)] obtain q pm where
    w: "walk fs [] D = Inr q" "map_of fs q = Some (Dir pm)" "q @ [n] \<in> fst ` set fs"
    by blast
  from sc(3) have "n \<noteq> ''..''" by (rule endswith_md_not_dotdot)
  then have "walk fs [] f = Inr (q @ [n]) \<or> (\<exists>e. walk fs [] f = Inl e)"
    using w(1,2) by (simp add: sc(4) walk_append step_def)
  with w(3) show ?thesis by blast
qed

lemma glob_md_misses:
  assumes "glob_md fs D = Inr files" and "q \<notin> fst ` set fs"
  shows "list_all (\<lambda>f. walk fs [] f \<noteq> Inr q) files"
  unfolding list_all_iff
proof
  fix f
  assume "f \<in> set files"
  from glob_md_resolves [OF assms(1) this] assms(2)
  show "walk fs [] f \<noteq> Inr q" by force
qed

lemma foldl_bullets:
  "foldl (\<lambda>result doc_file. result @ ''- '' @ path_name doc_file @ [LF]) acc xs
     = acc @ concat (map (\<lambda>f. ''- '' @ path_name f @ [LF]) xs)"
  by (induction xs arbitrary: acc) simp_all

lemma list_docs_listing:
  "list_docs fs D
     = (case glob_md fs D of Inl e \<Rightarrow> Inl e | Inr doc_files \<Rightarrow> Inr (listing doc_files))"
  by (simp only: list_docs_def listing_def foldl_bullets) (simp split: sum.splits)

section \<open>Reading\<close>

lemma read_docs_found:
  assumes "Path_exists fs (joinpath D (ensure_md n)) = Inr True"
    and "read_text fs (joinpath D (ensure_md n)) = Inr body"
  shows "read_docs fs D [n]
           = Inr (''## '' @ ensure_md n @ [LF, LF] @ body @ [LF, LF] @ replicate 50 CHR ''='')"
proof -
  have loop: "read_loop fs D [n] []
          = Inr (''## '' @ ensure_md n @ [LF, LF] @ body @ [LF, LF]
                   @ replicate 50 CHR ''='' @ [LF, LF])"
    using assms by (simp add: Let_def)
  show ?thesis
    by (simp only: read_docs_def loop sum.case list.distinct if_False strip_section)
qed

lemma read_docs_missing:
  assumes "Path_exists fs (joinpath D (ensure_md n)) = Inr False"
  shows "read_docs fs D [n]
           = Inr (''Error: File '' @ [QUOTE] @ ensure_md n @ [QUOTE] @ '' not found.'')"
proof -
  have loop: "read_loop fs D [n] []
          = Inr (''Error: File '' @ [QUOTE] @ ensure_md n @ [QUOTE] @ '' not found.''
                   @ [LF, LF])"
    using assms by (simp add: Let_def)
  show ?thesis
    by (simp only: read_docs_def loop sum.case list.distinct if_False strip_not_found)
qed

text \<open>
  As long as the existence check answers for every requested name, the loop appends one
  section per name, in the order given, and the aggregate is their concatenation,
  stripped.
\<close>

lemma read_loop_sections:
  "list_all (answers fs D) names \<Longrightarrow>
     read_loop fs D names acc = Inr (acc @ concat (map (section_of fs D) names))"
proof (induction names arbitrary: acc)
  case Nil
  show ?case by simp
next
  case (Cons n names)
  from Cons.prems have a: "answers fs D n" and rest: "list_all (answers fs D) names"
    by simp_all
  from a obtain b where b: "Path_exists fs (joinpath D (ensure_md n)) = Inr b"
    by (auto simp: answers_def split: sum.splits)
  show ?case
  proof (cases b)
    case True
    with b show ?thesis
      by (cases "read_text fs (joinpath D (ensure_md n))")
         (simp_all add: Let_def section_of_def Cons.IH [OF rest])
  next
    case False
    with b show ?thesis
      by (simp add: Let_def section_of_def Cons.IH [OF rest])
  qed
qed

lemma read_docs_sections:
  assumes "names \<noteq> []" and "list_all (answers fs D) names"
  shows "read_docs fs D names = Inr (strip (concat (map (section_of fs D) names)))"
  using assms by (simp add: read_docs_def read_loop_sections)

section \<open>What the status messages tell\<close>

lemma save_docs_ok:
  assumes "save_docs fs D name content
             = (fs', Inr (''Successfully saved documentation to '' @ m))"
  shows "write_text fs (joinpath D (ensure_md (kebab_case name))) content = (fs', Inr ())"
  using assms
  by (auto simp: save_docs_def Let_def split: prod.splits sum.splits)

lemma remove_docs_ok:
  assumes "remove_docs fs D name = (fs', Inr (''Successfully removed '' @ m))"
  shows "os_remove fs (joinpath D (ensure_md name)) = (fs', Inr ())"
  using assms
  by (auto simp: remove_docs_def Let_def split: prod.splits sum.splits bool.splits)

lemma save_docs_fst:
  "fst (save_docs fs D name content)
     = fst (write_text fs (joinpath D (ensure_md (kebab_case name))) content)"
  by (simp add: save_docs_def Let_def split: prod.splits sum.splits)

section \<open>Round trip\<close>

text \<open>
  C1, as the code has it. If \<open>save_docs\<close> reports success for \<open>name\<close> and the server may
  read the stored file, then \<open>read_docs\<close> on the kebab form of \<open>name\<close> (which is \<open>name\<close>
  itself when \<open>name\<close> is lowercase without spaces) returns exactly one section: the
  heading with the stored file name, the body, the separator of 50 characters. The body
  is the content when the content has no carriage return; otherwise it is the content
  with every \<open>\r\n\<close> and every lone \<open>\r\<close> read as \<open>\n\<close>.
\<close>

theorem save_then_read:
  assumes saved: "save_docs fs D name content
      = (fs', Inr (''Successfully saved documentation to '' @ ensure_md (kebab_case name)
                     @ '' in '' @ path_str D))"
    and permitted:
      "read_text fs' (joinpath D (ensure_md (kebab_case name))) \<noteq> Inl PermissionError"
  shows "read_docs fs' D [kebab_case name]
      = Inr (''## '' @ ensure_md (kebab_case name) @ [LF, LF]
               @ (if CR \<in> set content then universal_newlines content else content)
               @ [LF, LF] @ replicate 50 CHR ''='')"
proof -
  let ?f = "ensure_md (kebab_case name)"
  let ?p = "joinpath D ?f"
  have same: "ensure_md (kebab_case name) = ensure_md ?f"
    by (simp add: ensure_md_idem)
  from saved have "write_text fs ?p content = (fs', Inr ())"
    by (rule save_docs_ok)
  then obtain pm where st: "os_stat fs' ?p = Inr (File pm (Text content))"
    using stat_after_write by blast
  then have ex: "Path_exists fs' ?p = Inr True"
    by (simp add: Path_exists_def)
  from st permitted have rd: "read_text fs' ?p = Inr (universal_newlines content)"
    by (simp add: read_text_def split: if_splits)
  have body: "(if CR \<in> set content then universal_newlines content else content)
                = universal_newlines content"
    by (simp add: universal_newlines_id)
  have "read_docs fs' D [kebab_case name]
          = Inr (''## '' @ ensure_md (kebab_case name) @ [LF, LF] @ universal_newlines content
                   @ [LF, LF] @ replicate 50 CHR ''='')"
    using ex rd same by (intro read_docs_found) simp_all
  then show ?thesis by (simp only: body)
qed

text \<open>
  An instance: \<open>My Notes\<close> is stored as \<open>my-notes.md\<close> and read back under \<open>my-notes\<close>.
\<close>

theorem save_then_read_witness:
  "read_docs (fst (save_docs fs0 D0 ''My Notes'' ''# Hello'')) D0 [''my-notes'']
     = Inr (''## my-notes.md'' @ [LF, LF] @ ''# Hello'' @ [LF, LF] @ replicate 50 CHR ''='')"
proof -
  let ?fs' = "fst (save_docs fs0 D0 ''My Notes'' ''# Hello'')"
  have h1: "save_docs fs0 D0 ''My Notes'' ''# Hello''
      = (?fs', Inr (''Successfully saved documentation to ''
                      @ ensure_md (kebab_case ''My Notes'') @ '' in '' @ path_str D0))"
    by code_simp
  have h2: "read_text ?fs' (joinpath D0 (ensure_md (kebab_case ''My Notes'')))
              \<noteq> Inl PermissionError"
    by code_simp
  have k: "kebab_case ''My Notes'' = ''my-notes''" by code_simp
  have e: "ensure_md ''my-notes'' = ''my-notes.md''" by code_simp
  show ?thesis
    using save_then_read [OF h1 h2] by (simp add: k e)
qed

text \<open>
  The round trip as stated fails twice. A carriage return in the content comes back as
  a line feed: after saving \<open>a\rb\<close> under \<open>notes\<close>, the section read back has the body
  \<open>a\nb\<close>. And a name that kebab-casing changes is not found under the name given:
  after saving under \<open>My Notes\<close>, reading \<open>My Notes\<close> looks for \<open>My Notes.md\<close>.
\<close>

theorem save_then_read_counterexample:
  "save_docs fs0 D0 ''notes'' (''a'' @ [CR] @ ''b'')
     = (fs0 @ [([''srv'', ''docs'', ''notes.md''], File rw (Text (''a'' @ [CR] @ ''b'')))],
        Inr ''Successfully saved documentation to notes.md in /srv/docs'')
   \<and> read_docs (fst (save_docs fs0 D0 ''notes'' (''a'' @ [CR] @ ''b''))) D0 [''notes'']
     = Inr (''## notes.md'' @ [LF, LF] @ ''a'' @ [LF] @ ''b'' @ [LF, LF]
              @ replicate 50 CHR ''='')
   \<and> read_docs (fst (save_docs fs0 D0 ''notes'' (''a'' @ [CR] @ ''b''))) D0 [''notes'']
     \<noteq> Inr (''## notes.md'' @ [LF, LF] @ ''a'' @ [CR] @ ''b'' @ [LF, LF]
              @ replicate 50 CHR ''='')
   \<and> read_docs (fst (save_docs fs0 D0 ''My Notes'' ''# Hello'')) D0 [''My Notes'']
     = Inr (''Error: File '' @ [QUOTE] @ ''My Notes.md'' @ [QUOTE] @ '' not found.'')"
  by code_simp

section \<open>Removal\<close>

text \<open>
  C2, as the code has it. If \<open>save_docs\<close> reports success for \<open>name\<close> and \<open>remove_docs\<close>
  then reports success for the kebab form of \<open>name\<close>, a following \<open>read_docs\<close> of that
  name reports the stored file name as not found, and whenever \<open>list_docs\<close> returns a
  listing, it renders scanned paths none of which resolves to the place of the removed
  document.
\<close>

theorem remove_then_absent:
  assumes saved: "save_docs fs D name content
      = (fs1, Inr (''Successfully saved documentation to '' @ ensure_md (kebab_case name)
                     @ '' in '' @ path_str D))"
    and removed: "remove_docs fs1 D (kebab_case name)
      = (fs2, Inr (''Successfully removed '' @ ensure_md (kebab_case name)
                     @ '' from '' @ path_str D))"
  shows "read_docs fs2 D [kebab_case name]
      = Inr (''Error: File '' @ [QUOTE] @ ensure_md (kebab_case name) @ [QUOTE]
               @ '' not found.'')
    \<and> (case glob_md fs2 D of
         Inl e \<Rightarrow> list_docs fs2 D = Inl e
       | Inr doc_files \<Rightarrow>
           list_docs fs2 D = Inr (listing doc_files)
           \<and> list_all (\<lambda>f. walk fs2 [] f
                            \<noteq> walk fs1 [] (joinpath D (ensure_md (kebab_case name))))
               doc_files)"
proof -
  let ?p = "joinpath D (ensure_md (kebab_case name))"
  from removed have "os_remove fs1 ?p = (fs2, Inr ())"
    by (rule remove_docs_ok)
  then obtain q pm d where h: "\<not> has_nul ?p" "walk fs1 [] ?p = Inr q"
      "map_of fs1 q = Some (File pm d)" "fs2 = AList.delete q fs1"
    using os_remove_ok by blast
  have w2: "walk fs2 [] ?p = Inr q"
    unfolding h(4) using h(2,3) by (rule walk_after_delete)
  have gone: "map_of fs2 q = None"
    by (simp add: h(4) delete_conv')
  have "Path_exists fs2 ?p = Inr False"
    using h(1) w2 gone by (simp add: Path_exists_def os_stat_def)
  then have rd: "read_docs fs2 D [kebab_case name]
      = Inr (''Error: File '' @ [QUOTE] @ ensure_md (kebab_case name) @ [QUOTE]
               @ '' not found.'')"
    by (rule read_docs_missing)
  have nokey: "q \<notin> fst ` set fs2"
    unfolding h(4) by (rule delete_notin_dom)
  have ls: "case glob_md fs2 D of
         Inl e \<Rightarrow> list_docs fs2 D = Inl e
       | Inr doc_files \<Rightarrow>
           list_docs fs2 D = Inr (listing doc_files)
           \<and> list_all (\<lambda>f. walk fs2 [] f \<noteq> walk fs1 [] ?p) doc_files"
  proof (cases "glob_md fs2 D")
    case (Inl e)
    then show ?thesis by (simp add: list_docs_listing)
  next
    case (Inr doc_files)
    from glob_md_misses [OF Inr nokey] Inr show ?thesis
      by (simp add: list_docs_listing h(2))
  qed
  from rd ls show ?thesis by (rule conjI)
qed

text \<open>An instance: \<open>My Notes\<close> saved, \<open>my-notes\<close> removed, \<open>my-notes\<close> read.\<close>

theorem remove_then_absent_witness:
  "read_docs
     (fst (remove_docs (fst (save_docs fs0 D0 ''My Notes'' ''# Hello'')) D0 ''my-notes''))
     D0 [''my-notes'']
     = Inr (''Error: File '' @ [QUOTE] @ ''my-notes.md'' @ [QUOTE] @ '' not found.'')"
proof -
  let ?fs1 = "fst (save_docs fs0 D0 ''My Notes'' ''# Hello'')"
  let ?fs2 = "fst (remove_docs ?fs1 D0 ''my-notes'')"
  have k: "kebab_case ''My Notes'' = ''my-notes''" by code_simp
  have e: "ensure_md ''my-notes'' = ''my-notes.md''" by code_simp
  have h1: "save_docs fs0 D0 ''My Notes'' ''# Hello''
      = (?fs1, Inr (''Successfully saved documentation to ''
                      @ ensure_md (kebab_case ''My Notes'') @ '' in '' @ path_str D0))"
    by code_simp
  have h2: "remove_docs ?fs1 D0 (kebab_case ''My Notes'')
      = (?fs2, Inr (''Successfully removed '' @ ensure_md (kebab_case ''My Notes'')
                      @ '' from '' @ path_str D0))"
    by code_simp
  from remove_then_absent [OF h1 h2]
  have "read_docs ?fs2 D0 [kebab_case ''My Notes'']
      = Inr (''Error: File '' @ [QUOTE] @ ensure_md (kebab_case ''My Notes'') @ [QUOTE]
               @ '' not found.'')"
    by (rule conjunct1)
  then show ?thesis by (simp only: k e)
qed

text \<open>
  For a name that kebab-casing changes, removal under the name given finds nothing and
  the document stays listed: after saving under \<open>a b\<close>, \<open>remove_docs\<close> of \<open>a b\<close> looks
  for \<open>a b.md\<close>, and \<open>list_docs\<close> still shows \<open>a-b.md\<close>.
\<close>

theorem remove_then_absent_counterexample:
  "save_docs fs0 D0 ''a b'' ''x''
     = (fs0 @ [([''srv'', ''docs'', ''a-b.md''], File rw (Text ''x''))],
        Inr ''Successfully saved documentation to a-b.md in /srv/docs'')
   \<and> remove_docs (fst (save_docs fs0 D0 ''a b'' ''x'')) D0 ''a b''
     = (fs0 @ [([''srv'', ''docs'', ''a-b.md''], File rw (Text ''x''))],
        Inr (''Error: File '' @ [QUOTE] @ ''a b.md'' @ [QUOTE] @ '' not found.''))
   \<and> list_docs (fst (remove_docs (fst (save_docs fs0 D0 ''a b'' ''x'')) D0 ''a b'')) D0
     = Inr (''Available documentation files:'' @ [LF, LF] @ ''- a-b.md'' @ [LF])"
  by code_simp

text \<open>
  C7. A target that does not exist is not always answered with the not-found message.
  No entry exists for a name of 256 letters, nor for \<open>private/x\<close> below a directory
  the server may not search; for both the existence check of \<open>remove_docs\<close>, which
  stands outside its \<open>try\<close> block, raises and the exception leaves the tool. The
  file system is left as it was. For the absent name \<open>missing\<close>, where the check
  answers, the not-found message is returned.
\<close>

theorem remove_docs_absent_raises:
  "map_of fs0 (joinpath D0 (ensure_md long_name)) = None
   \<and> remove_docs fs0 D0 long_name = (fs0, Inl FileNameTooLong)
   \<and> joinpath D0 (ensure_md ''private/x'') = [''srv'', ''docs'', ''private'', ''x.md'']
   \<and> map_of fs_private [''srv'', ''docs'', ''private'', ''x.md''] = None
   \<and> remove_docs fs_private D0 ''private/x'' = (fs_private, Inl PermissionError)
   \<and> remove_docs fs0 D0 ''missing''
       = (fs0, Inr (''Error: File '' @ [QUOTE] @ ''missing.md'' @ [QUOTE] @ '' not found.''))"
  by code_simp

section \<open>Saving\<close>

text \<open>
  C5. \<open>save_docs\<close> writes to the store root joined with the stored name: the kebab form
  of the input (lowercase, each space a hyphen), with \<open>.md\<close> appended exactly when the
  kebab form does not already end in \<open>.md\<close>. Its success message names that file.
\<close>

theorem save_docs_stored_name:
  "save_docs fs D name content =
     (case write_text fs (joinpath D (stored_name name)) content of
        (fs', Inr u) \<Rightarrow>
          (fs', Inr (''Successfully saved documentation to '' @ stored_name name
                       @ '' in '' @ path_str D))
      | (fs', Inl e) \<Rightarrow> (fs', Inr (''Error saving documentation: '' @ str_exn e)))"
  by (simp only: save_docs_def ensure_md_stored Let_def)

text \<open>
  The suffix is looked for after kebab-casing: \<open>Notes.MD\<close> is stored as \<open>notes.md\<close>,
  not as \<open>notes.md.md\<close>.
\<close>

lemma stored_name_upper: "stored_name ''Notes.MD'' = ''notes.md''"
  by code_simp

text \<open>
  C8. Saving the same name and content \<open>N\<close> times, \<open>N \<ge> 1\<close>, leaves the file system
  that saving once leaves.
\<close>

theorem save_docs_idempotent:
  "1 \<le> N \<Longrightarrow>
     ((\<lambda>s. fst (save_docs s D name content)) ^^ N) fs = fst (save_docs fs D name content)"
proof (induction N rule: nat_induct_at_least)
  case base
  show ?case by simp
next
  case (Suc n)
  then show ?case by (simp add: save_docs_fst write_text_idem)
qed

text \<open>An instance: three saves of \<open>notes\<close>.\<close>

theorem save_docs_idempotent_witness:
  "(1::nat) \<le> 3
   \<and> ((\<lambda>s. fst (save_docs s D0 ''notes'' ''x'')) ^^ 3) fs0
       = fst (save_docs fs0 D0 ''notes'' ''x'')"
  using save_docs_idempotent [of 3 D0 "''notes''" "''x''" fs0] by simp

text \<open>
  C10. The empty name is accepted. In a store root that resolves to a directory the
  server may search and write, with no entry \<open>.md\<close> yet, \<open>save_docs\<close> with the empty
  name creates the file \<open>.md\<close> with the given content and confirms it.
\<close>

theorem save_docs_empty_name:
  assumes "\<not> has_nul D" and "walk fs [] D = Inr q" and "map_of fs q = Some (Dir pm)"
    and "searchable pm" and "writable pm" and "map_of fs (q @ [''.md'']) = None"
  shows "save_docs fs D '''' content
      = (AList.update (q @ [''.md'']) (File (Perm True True False) (Text content)) fs,
         Inr (''Successfully saved documentation to .md in '' @ path_str D))"
proof -
  have w: "walk fs [] (D @ [''.md'']) = Inr (q @ [''.md''])"
    using assms(2-4) by (simp add: walk_append not_too_long_dot_md step_def)
  have n: "\<not> has_nul (D @ [''.md''])"
    using assms(1) by (simp add: has_nul_def)
  have "write_text fs (D @ [''.md'']) content
      = (AList.update (q @ [''.md'']) (File (Perm True True False) (Text content)) fs, Inr ())"
    using assms(3,5,6) w n by (simp add: write_text_def)
  then show ?thesis
    by (simp add: save_docs_def kebab_case_empty ensure_md_empty joinpath_dot_md)
qed

text \<open>An instance: the empty name in the empty store.\<close>

theorem save_docs_empty_name_witness:
  "save_docs fs0 D0 '''' ''c''
     = (fs0 @ [([''srv'', ''docs'', ''.md''], File rw (Text ''c''))],
        Inr ''Successfully saved documentation to .md in /srv/docs'')"
proof -
  have h1: "\<not> has_nul D0" by code_simp
  have h2: "walk fs0 [] D0 = Inr D0" by code_simp
  have h3: "map_of fs0 D0 = Some (Dir rwx)" by code_simp
  have h4: "searchable rwx" by code_simp
  have h5: "writable rwx" by code_simp
  have h6: "map_of fs0 (D0 @ [''.md'']) = None" by code_simp
  have u: "AList.update (D0 @ [''.md'']) (File (Perm True True False) (Text ''c'')) fs0
             = fs0 @ [([''srv'', ''docs'', ''.md''], File rw (Text ''c''))]"
    by code_simp
  have p: "''Successfully saved documentation to .md in '' @ path_str D0
             = ''Successfully saved documentation to .md in /srv/docs''"
    by code_simp
  show ?thesis
    using save_docs_empty_name [OF h1 h2 h3 h4 h5 h6, of "''c''"] by (simp only: u p)
qed

section \<open>The empty request\<close>

text \<open>
  C6. \<open>read_docs\<close> with an empty list returns the caller-error message whatever the
  file system holds: the answer depends on no file, and \<open>read_docs\<close> returns no file
  system because it changes none.
\<close>

theorem read_docs_empty:
  "read_docs fs D [] = Inr ''Error: No filenames provided.''"
  by (simp add: read_docs_def)

section \<open>Exceptions that leave a tool\<close>

text \<open>
  C3. The existence check of \<open>read_docs\<close> and \<open>remove_docs\<close> stands outside their
  \<open>try\<close> blocks. For a name of 256 letters the check raises \<open>OSError\<close> (file name too
  long), and for a name below a directory the server may not search it raises
  \<open>PermissionError\<close>; both leave the tool. \<open>save_docs\<close>, whose only file access is
  inside its \<open>try\<close>, returns an error string for the same name.
\<close>

theorem exists_check_escapes:
  "read_docs fs0 D0 [long_name] = Inl FileNameTooLong
   \<and> remove_docs fs0 D0 long_name = (fs0, Inl FileNameTooLong)
   \<and> save_docs fs0 D0 long_name ''x''
       = (fs0, Inr ''Error saving documentation: [Errno 36] File name too long'')
   \<and> read_docs fs_private D0 [''private/x''] = Inl PermissionError
   \<and> remove_docs fs_private D0 ''private/x'' = (fs_private, Inl PermissionError)"
  by code_simp

text \<open>
  C4. With \<open>a.md\<close> stored, the request \<open>a\<close>, a name of 256 letters, \<open>b\<close> yields no
  aggregate at all: the exception of the second name's existence check ends the loop,
  and the section already built for \<open>a\<close> is lost. Without the long name the aggregate
  is the section of \<open>a\<close> followed by the notice for \<open>b\<close>.
\<close>

theorem read_docs_aborts:
  "read_docs fs_a D0 [''a'', long_name, ''b''] = Inl FileNameTooLong
   \<and> read_docs fs_a D0 [''a'', ''b'']
       = Inr (''## a.md'' @ [LF, LF] @ ''A'' @ [LF, LF] @ replicate 50 CHR ''='' @ [LF, LF]
                @ ''Error: File '' @ [QUOTE] @ ''b.md'' @ [QUOTE] @ '' not found.'')"
  by code_simp

section \<open>Names that leave the store root\<close>

text \<open>
  C9. The name \<open>../x\<close> resolves to \<open>/srv/x.md\<close>, outside the store root \<open>/srv/docs\<close>:
  \<open>save_docs\<close> creates that file, \<open>read_docs\<close> returns its content, \<open>remove_docs\<close>
  deletes it.
\<close>

theorem path_traversal:
  "joinpath D0 (ensure_md ''../x'') = [''srv'', ''docs'', ''..'', ''x.md'']
   \<and> walk fs0 [] (joinpath D0 (ensure_md ''../x'')) = Inr [''srv'', ''x.md'']
   \<and> \<not> inside D0 [''srv'', ''x.md'']
   \<and> save_docs fs0 D0 ''../x'' ''s''
       = (fs0 @ [([''srv'', ''x.md''], File rw (Text ''s''))],
          Inr ''Successfully saved documentation to ../x.md in /srv/docs'')
   \<and> read_docs (fs0 @ [([''srv'', ''x.md''], File rw (Text ''s''))]) D0 [''../x'']
       = Inr (''## ../x.md'' @ [LF, LF] @ ''s'' @ [LF, LF] @ replicate 50 CHR ''='')
   \<and> remove_docs (fs0 @ [([''srv'', ''x.md''], File rw (Text ''s''))]) D0 ''../x''
       = (fs0, Inr ''Successfully removed ../x.md from /srv/docs'')"
  by code_simp

end
